theory Spec2Isabelle
  imports Complex_Main "HOL-Library.Multiset"
begin

section \<open>Data model\<close>

text \<open>
  The expense subsystem of the backend: the Mongoose schemas of the Expense, Event and
  Community models and the handlers of routes/expenses.js.

  An ObjectId is an opaque identifier compared by equality (\<open>equals\<close>, or \<open>===\<close> on its
  string form); a Date is a number of milliseconds. A Number is a finite IEEE double, held
  as the rational it denotes; the sections on the summary say how sums and differences of
  two of them are taken. Documents are typed as the schema types them: an entry of
  \<open>splitBetween\<close> carries a user, an amount and the flag \<open>isPaid\<close>.

  The title, the one string whose characters the code inspects, is a JavaScript string: a
  list of UTF-16 code units, each below \<open>0x10000\<close>. The other strings are only compared
  or passed on and are byte strings.
\<close>

type_synonym objectid = nat

type_synonym js_string = "nat list"

text \<open>The code units of an ASCII literal.\<close>

definition ascii :: "string \<Rightarrow> js_string" where
  "ascii s = map of_char s"

record split_item =
  split_user :: objectid
  split_amount :: rat
  isPaid :: bool

record expense =
  expense_id :: objectid
  title :: js_string
  amount :: rat
  category :: string
  paidBy :: objectid
  splitBetween :: "split_item list"
  event :: "objectid option"
  community :: objectid
  receipt :: "string option"
  expense_notes :: "string option"
  createdAt :: int

record event_doc =
  event_id :: objectid
  event_community :: objectid
  expenses :: "objectid list"

record community_doc =
  community_id :: objectid
  members :: "objectid list"

text \<open>
  The database: one list of documents per collection. MongoDB keeps \<open>_id\<close> unique within a
  collection, so "the document with this \<open>_id\<close>" is at most one document; an update or a
  removal by \<open>_id\<close> is written as a map or a filter over the list.
\<close>

record db =
  expenseColl :: "expense list"
  eventColl :: "event_doc list"
  communityColl :: "community_doc list"

text \<open>
  The outcomes of a handler other than success: status 400 with the validators' error array
  (\<open>ValidationError\<close>), status 400 with "Community or event ID required" (\<open>InvalidScope\<close>),
  status 404 (\<open>NotFound\<close>), status 403 (\<open>PermissionDenied\<close>) and status 500 from a
  \<open>catch\<close> block (\<open>InternalError\<close>).
\<close>

datatype error = ValidationError | InvalidScope | NotFound | PermissionDenied | InternalError

section \<open>Queries\<close>

text \<open>The filter object built by the GET handlers: each field is either absent or an id.\<close>

record query =
  q_event :: "objectid option"
  q_community :: "objectid option"

definition matches :: "query \<Rightarrow> expense \<Rightarrow> bool" where
  "matches q e =
     ((case q_event q of None \<Rightarrow> True | Some ev \<Rightarrow> event e = Some ev) \<and>
      (case q_community q of None \<Rightarrow> True | Some c \<Rightarrow> community e = c))"

text \<open>\<open>Expense.find(query)\<close>.\<close>

definition find_expenses :: "db \<Rightarrow> query \<Rightarrow> expense list" where
  "find_expenses st q = filter (matches q) (expenseColl st)"

text \<open>\<open>Expense.findById(id)\<close>.\<close>

definition findById :: "db \<Rightarrow> objectid \<Rightarrow> expense option" where
  "findById st i = find (\<lambda>e. expense_id e = i) (expenseColl st)"

section \<open>GET /\<close>

text \<open>
  A query parameter is \<open>None\<close> when it is absent or empty (falsy), \<open>Some\<close> of the id
  otherwise. \<open>eventId\<close> is tested first; with neither parameter the handler answers 400.
  The result is sorted by \<open>-createdAt\<close>; \<open>populate\<close> only resolves the display form of
  the users and is left out.
\<close>

definition get_expenses :: "db \<Rightarrow> objectid option \<Rightarrow> objectid option \<Rightarrow> error + expense list" where
  "get_expenses st communityId eventId =
     (case eventId of
        Some ev \<Rightarrow>
          Inr (sort_key (\<lambda>e. - createdAt e)
                 (find_expenses st \<lparr>q_event = Some ev, q_community = None\<rparr>))
      | None \<Rightarrow>
          (case communityId of
             Some c \<Rightarrow>
               Inr (sort_key (\<lambda>e. - createdAt e)
                      (find_expenses st \<lparr>q_event = None, q_community = Some c\<rparr>))
           | None \<Rightarrow> Inl InvalidScope))"

section \<open>GET /summary\<close>

record summary =
  totalPaid :: rat
  totalOwed :: rat
  netBalance :: rat
  balances :: "objectid \<rightharpoonup> rat"

text \<open>
  The loops of the handler, first with \<open>+\<close> and \<open>-\<close> read as the exact operations; the
  next section gives the same loops with the two operations as parameters.

  \<open>if (!balances[k]) balances[k] = 0; balances[k] += x\<close>: a missing key and a key holding 0
  are both falsy and are both set to 0 before the addition.
\<close>

definition credit :: "(objectid \<rightharpoonup> rat) \<Rightarrow> objectid \<Rightarrow> rat \<Rightarrow> (objectid \<rightharpoonup> rat)" where
  "credit b k x =
     (let b' = (case b k of None \<Rightarrow> b(k \<mapsto> 0) | Some v \<Rightarrow> if v = 0 then b(k \<mapsto> 0) else b)
      in b'(k \<mapsto> (case b' k of None \<Rightarrow> 0 | Some v \<Rightarrow> v) + x))"

text \<open>The inner loop of the branch "if user paid", over the splits of one expense.\<close>

fun paid_loop :: "objectid \<Rightarrow> split_item list \<Rightarrow> (objectid \<rightharpoonup> rat) \<Rightarrow> (objectid \<rightharpoonup> rat)" where
  "paid_loop userId [] b = b"
| "paid_loop userId (s # ss) b =
     paid_loop userId ss
       (if split_user s \<noteq> userId \<and> \<not> isPaid s then credit b (split_user s) (split_amount s)
        else b)"

text \<open>The loop "if user owes", over the splits of one expense; it carries totalOwed and balances.\<close>

fun owes_loop ::
  "objectid \<Rightarrow> expense \<Rightarrow> split_item list \<Rightarrow> rat \<times> (objectid \<rightharpoonup> rat) \<Rightarrow> rat \<times> (objectid \<rightharpoonup> rat)" where
  "owes_loop userId e [] acc = acc"
| "owes_loop userId e (s # ss) (owed, b) =
     owes_loop userId e ss
       (if split_user s = userId \<and> paidBy e \<noteq> userId \<and> \<not> isPaid s
        then (owed + split_amount s, credit b (paidBy e) (- split_amount s))
        else (owed, b))"

text \<open>The body of \<open>expenses.forEach\<close>, on the triple (totalPaid, totalOwed, balances).\<close>

definition expense_step ::
  "objectid \<Rightarrow> expense \<Rightarrow> rat \<times> rat \<times> (objectid \<rightharpoonup> rat) \<Rightarrow> rat \<times> rat \<times> (objectid \<rightharpoonup> rat)" where
  "expense_step userId e acc =
     (case acc of (paid, owed, b) \<Rightarrow>
        (let (paid1, b1) =
               (if paidBy e = userId
                then (paid + amount e, paid_loop userId (splitBetween e) b)
                else (paid, b));
             (owed2, b2) = owes_loop userId e (splitBetween e) (owed, b1)
         in (paid1, owed2, b2)))"

fun expenses_loop ::
  "objectid \<Rightarrow> expense list \<Rightarrow> rat \<times> rat \<times> (objectid \<rightharpoonup> rat) \<Rightarrow> rat \<times> rat \<times> (objectid \<rightharpoonup> rat)" where
  "expenses_loop userId [] acc = acc"
| "expenses_loop userId (e # es) acc = expenses_loop userId es (expense_step userId e acc)"

text \<open>The aggregation of the handler over the expenses it has read.\<close>

definition summarize :: "objectid \<Rightarrow> expense list \<Rightarrow> summary" where
  "summarize userId es =
     (case expenses_loop userId es (0, 0, Map.empty) of (paid, owed, b) \<Rightarrow>
        \<lparr>totalPaid = paid, totalOwed = owed, netBalance = paid - owed, balances = b\<rparr>)"

text \<open>
  The handler: unlike GET /, it has no final \<open>else\<close>; with neither parameter the query stays
  \<open>{}\<close> and \<open>Expense.find\<close> returns every expense.
\<close>

definition get_summary :: "db \<Rightarrow> objectid option \<Rightarrow> objectid option \<Rightarrow> objectid \<Rightarrow> error + summary" where
  "get_summary st communityId eventId userId =
     (let q = (case eventId of
                 Some ev \<Rightarrow> \<lparr>q_event = Some ev, q_community = None\<rparr>
               | None \<Rightarrow>
                   (case communityId of
                      Some c \<Rightarrow> \<lparr>q_event = None, q_community = Some c\<rparr>
                    | None \<Rightarrow> \<lparr>q_event = None, q_community = None\<rparr>))
      in Inr (summarize userId (find_expenses st q)))"

section \<open>GET /summary with rounding arithmetic\<close>

text \<open>
  On doubles \<open>+\<close> and \<open>-\<close> round their result, so that they are neither associative nor
  inverse to each other. The loops of the handler are given here with the two operations
  as parameters \<open>add\<close> and \<open>sub\<close>, of which nothing is assumed. A result that is not
  finite is outside the model. Both zeros of a double denote 0 and are falsy.
\<close>

text \<open>\<open>if (!balances[k]) balances[k] = 0\<close>, then \<open>balances[k] += x\<close> or \<open>balances[k] -= x\<close>.\<close>

definition bump ::
  "(rat \<Rightarrow> rat \<Rightarrow> rat) \<Rightarrow> (objectid \<rightharpoonup> rat) \<Rightarrow> objectid \<Rightarrow> rat \<Rightarrow> (objectid \<rightharpoonup> rat)" where
  "bump f b k x =
     (let b' = (case b k of None \<Rightarrow> b(k \<mapsto> 0) | Some v \<Rightarrow> if v = 0 then b(k \<mapsto> 0) else b)
      in b'(k \<mapsto> f (case b' k of None \<Rightarrow> 0 | Some v \<Rightarrow> v) x))"

fun paid_loop_with ::
  "(rat \<Rightarrow> rat \<Rightarrow> rat) \<Rightarrow> objectid \<Rightarrow> split_item list \<Rightarrow> (objectid \<rightharpoonup> rat) \<Rightarrow> (objectid \<rightharpoonup> rat)" where
  "paid_loop_with add userId [] b = b"
| "paid_loop_with add userId (s # ss) b =
     paid_loop_with add userId ss
       (if split_user s \<noteq> userId \<and> \<not> isPaid s then bump add b (split_user s) (split_amount s)
        else b)"

fun owes_loop_with ::
  "(rat \<Rightarrow> rat \<Rightarrow> rat) \<Rightarrow> (rat \<Rightarrow> rat \<Rightarrow> rat) \<Rightarrow> objectid \<Rightarrow> expense \<Rightarrow> split_item list \<Rightarrow>
     rat \<times> (objectid \<rightharpoonup> rat) \<Rightarrow> rat \<times> (objectid \<rightharpoonup> rat)" where
  "owes_loop_with add sub userId e [] acc = acc"
| "owes_loop_with add sub userId e (s # ss) (owed, b) =
     owes_loop_with add sub userId e ss
       (if split_user s = userId \<and> paidBy e \<noteq> userId \<and> \<not> isPaid s
        then (add owed (split_amount s), bump sub b (paidBy e) (split_amount s))
        else (owed, b))"

definition expense_step_with ::
  "(rat \<Rightarrow> rat \<Rightarrow> rat) \<Rightarrow> (rat \<Rightarrow> rat \<Rightarrow> rat) \<Rightarrow> objectid \<Rightarrow> expense \<Rightarrow>
     rat \<times> rat \<times> (objectid \<rightharpoonup> rat) \<Rightarrow> rat \<times> rat \<times> (objectid \<rightharpoonup> rat)" where
  "expense_step_with add sub userId e acc =
     (case acc of (paid, owed, b) \<Rightarrow>
        (let (paid1, b1) =
               (if paidBy e = userId
                then (add paid (amount e), paid_loop_with add userId (splitBetween e) b)
                else (paid, b));
             (owed2, b2) = owes_loop_with add sub userId e (splitBetween e) (owed, b1)
         in (paid1, owed2, b2)))"

fun expenses_loop_with ::
  "(rat \<Rightarrow> rat \<Rightarrow> rat) \<Rightarrow> (rat \<Rightarrow> rat \<Rightarrow> rat) \<Rightarrow> objectid \<Rightarrow> expense list \<Rightarrow>
     rat \<times> rat \<times> (objectid \<rightharpoonup> rat) \<Rightarrow> rat \<times> rat \<times> (objectid \<rightharpoonup> rat)" where
  "expenses_loop_with add sub userId [] acc = acc"
| "expenses_loop_with add sub userId (e # es) acc =
     expenses_loop_with add sub userId es (expense_step_with add sub userId e acc)"

definition summarize_with ::
  "(rat \<Rightarrow> rat \<Rightarrow> rat) \<Rightarrow> (rat \<Rightarrow> rat \<Rightarrow> rat) \<Rightarrow> objectid \<Rightarrow> expense list \<Rightarrow> summary" where
  "summarize_with add sub userId es =
     (case expenses_loop_with add sub userId es (0, 0, Map.empty) of (paid, owed, b) \<Rightarrow>
        \<lparr>totalPaid = paid, totalOwed = owed, netBalance = sub paid owed, balances = b\<rparr>)"

section \<open>POST /create\<close>

text \<open>
  The request after body parsing. \<open>req_amount\<close> is \<open>None\<close> when the field is not a float
  literal, otherwise the number \<open>parseFloat\<close> reads; \<open>req_communityId\<close> is \<open>None\<close> when the
  field is absent or not a MongoId; \<open>req_splitBetween\<close> is the parsed list of splits;
  \<open>req_file\<close> is the path of the uploaded receipt.
\<close>

record create_request =
  req_title :: js_string
  req_amount :: "rat option"
  req_category :: string
  req_communityId :: "objectid option"
  req_splitBetween :: "split_item list"
  req_eventId :: "objectid option"
  req_notes :: "string option"
  req_file :: "string option"

text \<open>
  The sanitizer \<open>trim()\<close> of the validator removes the leading and the trailing run of
  the code units that the regular expression \<open>\s\<close> matches: tab, line feed, vertical tab,
  form feed, carriage return, space, U+00A0, U+1680, U+2000 to U+200A, U+2028, U+2029,
  U+202F, U+205F, U+3000 and U+FEFF.
\<close>

definition is_space :: "nat \<Rightarrow> bool" where
  "is_space c =
     (c \<in> set [0x09, 0x0A, 0x0B, 0x0C, 0x0D, 0x20, 0xA0, 0x1680, 0x2028, 0x2029, 0x202F,
                0x205F, 0x3000, 0xFEFF]
      \<or> (0x2000 \<le> c \<and> c \<le> 0x200A))"

definition trim :: "js_string \<Rightarrow> js_string" where
  "trim s = rev (dropWhile is_space (rev (dropWhile is_space s)))"

definition allowed_categories :: "string list" where
  "allowed_categories = [''food'', ''transport'', ''accommodation'', ''entertainment'', ''other'']"

text \<open>
  The validation chain: \<open>body('title').trim().notEmpty()\<close>,
  \<open>body('amount').isFloat({ min: 0 })\<close>, \<open>body('category').isIn([...])\<close>,
  \<open>body('communityId').isMongoId()\<close>. The result lists the fields that failed, as
  \<open>errors.array()\<close> does.
\<close>

definition validation_errors :: "create_request \<Rightarrow> string list" where
  "validation_errors r =
     (if trim (req_title r) = [] then [''title''] else []) @
     (if (case req_amount r of None \<Rightarrow> False | Some a \<Rightarrow> 0 \<le> a) then [] else [''amount'']) @
     (if req_category r \<in> set allowed_categories then [] else [''category'']) @
     (if req_communityId r = None then [''communityId''] else [])"

text \<open>The middleware \<open>isCommunityMember\<close>: 404 for an unknown community, 403 for a non-member.\<close>

definition isCommunityMember :: "db \<Rightarrow> objectid option \<Rightarrow> objectid \<Rightarrow> error + community_doc" where
  "isCommunityMember st communityId userId =
     (case communityId of
        None \<Rightarrow> Inl NotFound
      | Some c \<Rightarrow>
          (case find (\<lambda>d. community_id d = c) (communityColl st) of
             None \<Rightarrow> Inl NotFound
           | Some com \<Rightarrow> if userId \<in> set (members com) then Inr com else Inl PermissionDenied))"

text \<open>\<open>Event.findByIdAndUpdate(ev, { $push: { expenses: i } })\<close>.\<close>

definition push_expense :: "db \<Rightarrow> objectid \<Rightarrow> objectid \<Rightarrow> db" where
  "push_expense st ev i =
     st\<lparr>eventColl :=
          map (\<lambda>d. if event_id d = ev then d\<lparr>expenses := expenses d @ [i]\<rparr> else d) (eventColl st)\<rparr>"

text \<open>
  The handler. \<open>newId\<close> is the \<open>_id\<close> Mongoose gives the new document and \<open>now\<close> the value of
  \<open>Date.now\<close>. The splits are stored as they were submitted.
\<close>

definition post_create ::
  "db \<Rightarrow> create_request \<Rightarrow> objectid \<Rightarrow> objectid \<Rightarrow> int \<Rightarrow> error + (db \<times> expense)" where
  "post_create st r userId newId now =
     (if validation_errors r \<noteq> [] then Inl ValidationError
      else
        (case isCommunityMember st (req_communityId r) userId of
           Inl err \<Rightarrow> Inl err
         | Inr com \<Rightarrow>
             (case req_amount r of
                None \<Rightarrow> Inl InternalError
              | Some a \<Rightarrow>
                  (let e = \<lparr>expense_id = newId, title = trim (req_title r), amount = a,
                            category = req_category r, paidBy = userId,
                            splitBetween = req_splitBetween r, event = req_eventId r,
                            community = community_id com, receipt = req_file r,
                            expense_notes = req_notes r, createdAt = now\<rparr>;
                       st1 = st\<lparr>expenseColl := expenseColl st @ [e]\<rparr>;
                       st2 = (case req_eventId r of
                                Some ev \<Rightarrow> push_expense st1 ev newId
                              | None \<Rightarrow> st1)
                   in Inr (st2, e)))))"

section \<open>PUT /:expenseId/pay/:userId\<close>

text \<open>
  \<open>split.isPaid = true\<close> on the element that \<open>splitBetween.find\<close> returned: the first split
  of that user.
\<close>

fun mark_paid :: "objectid \<Rightarrow> split_item list \<Rightarrow> split_item list" where
  "mark_paid u [] = []"
| "mark_paid u (s # ss) =
     (if split_user s = u then s\<lparr>isPaid := True\<rparr> # ss else s # mark_paid u ss)"

text \<open>\<open>expense.save()\<close> of a document that was read from the collection.\<close>

definition save_expense :: "db \<Rightarrow> expense \<Rightarrow> db" where
  "save_expense st e =
     st\<lparr>expenseColl := map (\<lambda>x. if expense_id x = expense_id e then e else x) (expenseColl st)\<rparr>"

definition put_pay :: "db \<Rightarrow> objectid \<Rightarrow> objectid \<Rightarrow> objectid \<Rightarrow> error + db" where
  "put_pay st expenseId userId requester =
     (case findById st expenseId of
        None \<Rightarrow> Inl NotFound
      | Some e \<Rightarrow>
          (case find (\<lambda>s. split_user s = userId) (splitBetween e) of
             None \<Rightarrow> Inl NotFound
           | Some s \<Rightarrow>
               if paidBy e \<noteq> requester \<and> split_user s \<noteq> requester then Inl PermissionDenied
               else Inr (save_expense st (e\<lparr>splitBetween := mark_paid userId (splitBetween e)\<rparr>))))"

section \<open>DELETE /:expenseId\<close>

text \<open>\<open>Event.findByIdAndUpdate(ev, { $pull: { expenses: i } })\<close>.\<close>

definition pull_expense :: "db \<Rightarrow> objectid \<Rightarrow> objectid \<Rightarrow> db" where
  "pull_expense st ev i =
     st\<lparr>eventColl :=
          map (\<lambda>d. if event_id d = ev then d\<lparr>expenses := removeAll i (expenses d)\<rparr> else d)
              (eventColl st)\<rparr>"

text \<open>\<open>expense.deleteOne()\<close>.\<close>

definition delete_one :: "db \<Rightarrow> expense \<Rightarrow> db" where
  "delete_one st e =
     st\<lparr>expenseColl := filter (\<lambda>x. expense_id x \<noteq> expense_id e) (expenseColl st)\<rparr>"

text \<open>The handler pulls the id from the event first and deletes the document second.\<close>

definition delete_expense :: "db \<Rightarrow> objectid \<Rightarrow> objectid \<Rightarrow> error + db" where
  "delete_expense st expenseId requester =
     (case findById st expenseId of
        None \<Rightarrow> Inl NotFound
      | Some e \<Rightarrow>
          if paidBy e \<noteq> requester then Inl PermissionDenied
          else
            (let st1 = (case event e of
                          Some ev \<Rightarrow> pull_expense st ev (expense_id e)
                        | None \<Rightarrow> st)
             in Inr (delete_one st1 e)))"

section \<open>Totals and balances in exact arithmetic\<close>

text \<open>
  The unsettled shares that \<open>debtor\<close> has in the entries paid by \<open>payer\<close>, in the order of
  the entries and of their shares.
\<close>

definition unsettled_shares :: "objectid \<Rightarrow> objectid \<Rightarrow> expense list \<Rightarrow> split_item list" where
  "unsettled_shares payer debtor es =
     concat (map (\<lambda>e. if paidBy e = payer
                       then filter (\<lambda>s. split_user s = debtor \<and> \<not> isPaid s) (splitBetween e)
                       else []) es)"

text \<open>totalPaid: the sum of \<open>amount\<close> over the entries whose payer is the viewer.\<close>

definition spec_totalPaid :: "objectid \<Rightarrow> expense list \<Rightarrow> rat" where
  "spec_totalPaid viewer es = sum_list (map amount (filter (\<lambda>e. paidBy e = viewer) es))"

text \<open>
  totalOwed: the sum of the viewer's unsettled share amounts over the entries paid by
  someone else.
\<close>

definition spec_totalOwed :: "objectid \<Rightarrow> expense list \<Rightarrow> rat" where
  "spec_totalOwed viewer es =
     sum_list (map (\<lambda>e. sum_list (map split_amount
                          (filter (\<lambda>s. split_user s = viewer \<and> \<not> isPaid s) (splitBetween e))))
                   (filter (\<lambda>e. paidBy e \<noteq> viewer) es))"

text \<open>
  balances: a counterparty \<open>u\<close> has a key exactly when some unsettled share links the two:
  a share of \<open>u\<close> in an entry the viewer paid (added), or a share of the viewer in an entry
  \<open>u\<close> paid (subtracted).
\<close>

definition spec_balances :: "objectid \<Rightarrow> expense list \<Rightarrow> (objectid \<rightharpoonup> rat)" where
  "spec_balances viewer es u =
     (if u \<noteq> viewer \<and> (unsettled_shares viewer u es \<noteq> [] \<or> unsettled_shares u viewer es \<noteq> [])
      then Some (sum_list (map split_amount (unsettled_shares viewer u es))
                 - sum_list (map split_amount (unsettled_shares u viewer es)))
      else None)"

definition spec_summary :: "objectid \<Rightarrow> expense list \<Rightarrow> summary" where
  "spec_summary viewer es =
     \<lparr>totalPaid = spec_totalPaid viewer es,
      totalOwed = spec_totalOwed viewer es,
      netBalance = spec_totalPaid viewer es - spec_totalOwed viewer es,
      balances = spec_balances viewer es\<rparr>"

section \<open>The reference definition of the balance summary\<close>

text \<open>
  What one unsettled share does to a balance: it adds its amount or subtracts it.
\<close>

datatype posting = Plus rat | Minus rat

fun post :: "(rat \<Rightarrow> rat \<Rightarrow> rat) \<Rightarrow> (rat \<Rightarrow> rat \<Rightarrow> rat) \<Rightarrow> rat \<Rightarrow> posting \<Rightarrow> rat" where
  "post add sub v (Plus x) = add v x"
| "post add sub v (Minus x) = sub v x"

text \<open>
  The postings of one entry for a viewer, each with the counterparty it concerns, in the
  order of the shares: for an entry the viewer paid, every unsettled share of another
  debtor adds its amount to the balance of that debtor; for an entry someone else paid,
  every unsettled share of the viewer subtracts its amount from the balance of the payer.
\<close>

definition entry_postings :: "objectid \<Rightarrow> expense \<Rightarrow> (objectid \<times> posting) list" where
  "entry_postings viewer e =
     (if paidBy e = viewer
      then map (\<lambda>s. (split_user s, Plus (split_amount s)))
             (filter (\<lambda>s. split_user s \<noteq> viewer \<and> \<not> isPaid s) (splitBetween e))
      else map (\<lambda>s. (paidBy e, Minus (split_amount s)))
             (filter (\<lambda>s. split_user s = viewer \<and> \<not> isPaid s) (splitBetween e)))"

text \<open>The postings that concern counterparty \<open>k\<close>, in the order of the entries.\<close>

definition postings_of :: "objectid \<Rightarrow> expense list \<Rightarrow> objectid \<Rightarrow> posting list" where
  "postings_of viewer es k =
     map snd (filter (\<lambda>p. fst p = k) (concat (map (entry_postings viewer) es)))"

text \<open>
  balances: a counterparty without a posting has no key; otherwise its balance is 0 with
  its postings applied one after the other.
\<close>

definition ref_balances ::
  "(rat \<Rightarrow> rat \<Rightarrow> rat) \<Rightarrow> (rat \<Rightarrow> rat \<Rightarrow> rat) \<Rightarrow> objectid \<Rightarrow> expense list \<Rightarrow> (objectid \<rightharpoonup> rat)" where
  "ref_balances add sub viewer es k =
     (case postings_of viewer es k of
        [] \<Rightarrow> None
      | p # ps \<Rightarrow> Some (foldl (post add sub) 0 (p # ps)))"

text \<open>
  totalPaid: the amounts of the entries the viewer paid, added to 0 one after the other.
\<close>

definition ref_totalPaid :: "(rat \<Rightarrow> rat \<Rightarrow> rat) \<Rightarrow> objectid \<Rightarrow> expense list \<Rightarrow> rat" where
  "ref_totalPaid add viewer es = foldl add 0 (map amount (filter (\<lambda>e. paidBy e = viewer) es))"

text \<open>
  totalOwed: the amounts of the viewer's unsettled shares in the entries someone else paid,
  added to 0 one after the other.
\<close>

definition ref_totalOwed :: "(rat \<Rightarrow> rat \<Rightarrow> rat) \<Rightarrow> objectid \<Rightarrow> expense list \<Rightarrow> rat" where
  "ref_totalOwed add viewer es =
     foldl add 0
       (concat (map (\<lambda>e. map split_amount
                            (filter (\<lambda>s. split_user s = viewer \<and> \<not> isPaid s) (splitBetween e)))
                    (filter (\<lambda>e. paidBy e \<noteq> viewer) es)))"

section \<open>Auxiliary notions and sample data\<close>

text \<open>The value read from a balances map, a missing key counting as 0.\<close>

definition get0 :: "(objectid \<rightharpoonup> rat) \<Rightarrow> objectid \<Rightarrow> rat" where
  "get0 b k = (case b k of None \<Rightarrow> 0 | Some v \<Rightarrow> v)"

text \<open>One posting applied to a balances map.\<close>

definition apply_posting ::
  "(rat \<Rightarrow> rat \<Rightarrow> rat) \<Rightarrow> (rat \<Rightarrow> rat \<Rightarrow> rat) \<Rightarrow> (objectid \<rightharpoonup> rat) \<Rightarrow> objectid \<times> posting \<Rightarrow> (objectid \<rightharpoonup> rat)" where
  "apply_posting add sub b p = b(fst p \<mapsto> post add sub (get0 b (fst p)) (snd p))"

text \<open>
  The scenario of the specification: user 1 paid 100, split between users 2 and 3,
  50 each, nothing settled.
\<close>

definition ex_entry :: expense where
  "ex_entry =
     \<lparr>expense_id = 10, title = ascii ''dinner'', amount = 100, category = ''food'', paidBy = 1,
      splitBetween = [\<lparr>split_user = 2, split_amount = 50, isPaid = False\<rparr>,
                      \<lparr>split_user = 3, split_amount = 50, isPaid = False\<rparr>],
      event = None, community = 7, receipt = None, expense_notes = None, createdAt = 1000\<rparr>"

text \<open>An entry of user 1 whose shares are all settled.\<close>

definition ex_settled :: expense where
  "ex_settled =
     \<lparr>expense_id = 11, title = ascii ''taxi'', amount = 100, category = ''transport'', paidBy = 1,
      splitBetween = [\<lparr>split_user = 2, split_amount = 50, isPaid = True\<rparr>,
                      \<lparr>split_user = 3, split_amount = 50, isPaid = True\<rparr>],
      event = None, community = 7, receipt = None, expense_notes = None, createdAt = 1500\<rparr>"

text \<open>An entry of user 1 that names user 2 in two shares.\<close>

definition ex_dup :: expense where
  "ex_dup =
     \<lparr>expense_id = 12, title = ascii ''hotel'', amount = 80, category = ''accommodation'', paidBy = 1,
      splitBetween = [\<lparr>split_user = 2, split_amount = 50, isPaid = False\<rparr>,
                      \<lparr>split_user = 2, split_amount = 30, isPaid = False\<rparr>],
      event = None, community = 7, receipt = None, expense_notes = None, createdAt = 1600\<rparr>"

text \<open>An entry of user 2 in event 20 of community 8, with one share of user 1.\<close>

definition ex_event_entry :: expense where
  "ex_event_entry =
     \<lparr>expense_id = 13, title = ascii ''tickets'', amount = 30, category = ''entertainment'', paidBy = 2,
      splitBetween = [\<lparr>split_user = 1, split_amount = 30, isPaid = False\<rparr>],
      event = Some 20, community = 8, receipt = None, expense_notes = None, createdAt = 2000\<rparr>"

definition ex_db :: db where
  "ex_db =
     \<lparr>expenseColl = [ex_entry, ex_event_entry],
      eventColl = [\<lparr>event_id = 20, event_community = 8, expenses = [13]\<rparr>],
      communityColl = [\<lparr>community_id = 7, members = [1, 2, 3]\<rparr>,
                       \<lparr>community_id = 8, members = [1, 2]\<rparr>]\<rparr>"

text \<open>The property of an entry that no user has two shares in it, and of a database.\<close>

definition debtors_unique :: "expense \<Rightarrow> bool" where
  "debtors_unique e = distinct (map split_user (splitBetween e))"

definition all_debtors_unique :: "db \<Rightarrow> bool" where
  "all_debtors_unique st = list_all debtors_unique (expenseColl st)"

text \<open>A creation request of user 1 in community 7 with amount 0 and no shares.\<close>

definition ex_req_zero :: create_request where
  "ex_req_zero =
     \<lparr>req_title = ascii ''free'', req_amount = Some 0, req_category = ''other'',
      req_communityId = Some 7, req_splitBetween = [], req_eventId = None,
      req_notes = None, req_file = None\<rparr>"

text \<open>A creation request in community 8 and event 20 that names user 2 in two shares.\<close>

definition ex_req_dup :: create_request where
  "ex_req_dup =
     \<lparr>req_title = ascii ''hotel'', req_amount = Some 80, req_category = ''accommodation'',
      req_communityId = Some 8,
      req_splitBetween = [\<lparr>split_user = 2, split_amount = 50, isPaid = False\<rparr>,
                          \<lparr>split_user = 2, split_amount = 30, isPaid = False\<rparr>],
      req_eventId = Some 20, req_notes = None, req_file = None\<rparr>"

section \<open>The loops in exact arithmetic\<close>

lemma credit_eq: "credit b k x = b(k \<mapsto> get0 b k + x)"
  by (auto simp: credit_def get0_def Let_def split: option.splits)

lemma get0_upd: "get0 (b(k \<mapsto> v)) u = (if u = k then v else get0 b u)"
  by (simp add: get0_def)

lemma paid_loop_at:
  "paid_loop v ss b u =
     (if u = v \<or> filter (\<lambda>s. split_user s = u \<and> \<not> isPaid s) ss = [] then b u
      else Some (get0 b u + sum_list (map split_amount
                    (filter (\<lambda>s. split_user s = u \<and> \<not> isPaid s) ss))))"
  by (induction ss arbitrary: b u) (simp_all add: credit_eq get0_upd)

lemma owes_loop_fst:
  "fst (owes_loop v e ss (owed, b)) =
     owed + (if paidBy e \<noteq> v
             then sum_list (map split_amount (filter (\<lambda>s. split_user s = v \<and> \<not> isPaid s) ss))
             else 0)"
  by (induction ss arbitrary: owed b) simp_all

lemma owes_loop_snd:
  "snd (owes_loop v e ss (owed, b)) u =
     (if paidBy e \<noteq> v \<and> u = paidBy e \<and> filter (\<lambda>s. split_user s = v \<and> \<not> isPaid s) ss \<noteq> []
      then Some (get0 b u - sum_list (map split_amount
                    (filter (\<lambda>s. split_user s = v \<and> \<not> isPaid s) ss)))
      else b u)"
  by (induction ss arbitrary: owed b u) (simp_all add: credit_eq get0_upd)

lemma unsettled_Cons:
  "unsettled_shares p d (e # es) =
     (if paidBy e = p then filter (\<lambda>s. split_user s = d \<and> \<not> isPaid s) (splitBetween e) else [])
     @ unsettled_shares p d es"
  by (simp add: unsettled_shares_def)

lemma step_paid:
  "fst (expense_step v e acc) = fst acc + (if paidBy e = v then amount e else 0)"
  by (cases acc) (simp add: expense_step_def split: prod.splits)

lemma step_owed:
  "fst (snd (expense_step v e acc)) =
     fst (snd acc) + (if paidBy e \<noteq> v
        then sum_list (map split_amount (filter (\<lambda>s. split_user s = v \<and> \<not> isPaid s) (splitBetween e)))
        else 0)"
proof -
  obtain paid owed b where acc: "acc = (paid, owed, b)" by (cases acc)
  show ?thesis
    using owes_loop_fst [of v e "splitBetween e" owed b]
          owes_loop_fst [of v e "splitBetween e" owed "paid_loop v (splitBetween e) b"]
    by (simp add: acc expense_step_def split: prod.splits)
qed

lemma step_balances:
  "snd (snd (expense_step v e acc)) u =
     (if paidBy e = v
      then (if u = v \<or> filter (\<lambda>s. split_user s = u \<and> \<not> isPaid s) (splitBetween e) = []
            then snd (snd acc) u
            else Some (get0 (snd (snd acc)) u + sum_list (map split_amount
                    (filter (\<lambda>s. split_user s = u \<and> \<not> isPaid s) (splitBetween e)))))
      else (if u = paidBy e \<and> filter (\<lambda>s. split_user s = v \<and> \<not> isPaid s) (splitBetween e) \<noteq> []
            then Some (get0 (snd (snd acc)) u - sum_list (map split_amount
                    (filter (\<lambda>s. split_user s = v \<and> \<not> isPaid s) (splitBetween e))))
            else snd (snd acc) u))"
proof -
  obtain paid owed b where acc: "acc = (paid, owed, b)" by (cases acc)
  show ?thesis
    using owes_loop_snd [of v e "splitBetween e" owed b u]
          owes_loop_snd [of v e "splitBetween e" owed "paid_loop v (splitBetween e) b" u]
    by (simp add: acc expense_step_def paid_loop_at split: prod.splits)
qed

lemma loop_paid: "fst (expenses_loop v es acc) = fst acc + spec_totalPaid v es"
  by (induction es arbitrary: acc) (simp_all add: spec_totalPaid_def step_paid)

lemma loop_owed: "fst (snd (expenses_loop v es acc)) = fst (snd acc) + spec_totalOwed v es"
  by (induction es arbitrary: acc) (simp_all add: spec_totalOwed_def step_owed)

lemma loop_balances:
  "snd (snd (expenses_loop v es acc)) u =
     (if u \<noteq> v \<and> (unsettled_shares v u es \<noteq> [] \<or> unsettled_shares u v es \<noteq> [])
      then Some (get0 (snd (snd acc)) u
                 + sum_list (map split_amount (unsettled_shares v u es))
                 - sum_list (map split_amount (unsettled_shares u v es)))
      else snd (snd acc) u)"
proof (induction es arbitrary: acc)
  case Nil
  show ?case by (simp add: unsettled_shares_def)
next
  case (Cons e es)
  show ?case
    apply (simp only: expenses_loop.simps Cons.IH unsettled_Cons)
    apply (simp add: step_balances get0_def)
    done
qed

lemma summarize_eq: "summarize viewer es = spec_summary viewer es"
proof -
  obtain paid owed b where loop: "expenses_loop viewer es (0, 0, Map.empty) = (paid, owed, b)"
    by (cases "expenses_loop viewer es (0, 0, Map.empty)")
  have p: "paid = spec_totalPaid viewer es"
    using loop_paid [of viewer es "(0, 0, Map.empty)"] by (simp add: loop)
  have ow: "owed = spec_totalOwed viewer es"
    using loop_owed [of viewer es "(0, 0, Map.empty)"] by (simp add: loop)
  have "b u = spec_balances viewer es u" for u
    using loop_balances [of viewer es "(0, 0, Map.empty)" u]
    by (simp add: loop spec_balances_def get0_def)
  then have bal: "b = spec_balances viewer es" by (rule ext)
  show ?thesis
    by (simp add: summarize_def loop spec_summary_def p ow bal)
qed

lemmas summary_eval =
  summarize_def expense_step_def credit_def spec_summary_def spec_totalPaid_def
  spec_totalOwed_def spec_balances_def unsettled_shares_def

section \<open>The balance summary against its reference definition\<close>

lemma bump_eq: "bump f b k x = b(k \<mapsto> f (get0 b k) x)"
  by (auto simp: bump_def get0_def Let_def split: option.splits)

lemma paid_loop_with_postings:
  "paid_loop_with add v ss b =
     foldl (apply_posting add sub) b
       (map (\<lambda>s. (split_user s, Plus (split_amount s)))
          (filter (\<lambda>s. split_user s \<noteq> v \<and> \<not> isPaid s) ss))"
  by (induction ss arbitrary: b) (simp_all add: bump_eq apply_posting_def)

lemma owes_loop_with_snd:
  "snd (owes_loop_with add sub v e ss (owed, b)) =
     foldl (apply_posting add sub) b
       (map (\<lambda>s. (paidBy e, Minus (split_amount s)))
          (filter (\<lambda>s. split_user s = v \<and> paidBy e \<noteq> v \<and> \<not> isPaid s) ss))"
  by (induction ss arbitrary: owed b) (simp_all add: bump_eq apply_posting_def)

lemma owes_loop_with_fst:
  "fst (owes_loop_with add sub v e ss (owed, b)) =
     foldl add owed
       (map split_amount (filter (\<lambda>s. split_user s = v \<and> paidBy e \<noteq> v \<and> \<not> isPaid s) ss))"
  by (induction ss arbitrary: owed b) simp_all

lemma step_with_paid:
  "fst (expense_step_with add sub v e acc) =
     (if paidBy e = v then add (fst acc) (amount e) else fst acc)"
  by (cases acc) (simp add: expense_step_with_def split: prod.splits)

lemma step_with_owed:
  "fst (snd (expense_step_with add sub v e acc)) =
     foldl add (fst (snd acc))
       (if paidBy e \<noteq> v
        then map split_amount (filter (\<lambda>s. split_user s = v \<and> \<not> isPaid s) (splitBetween e))
        else [])"
proof -
  obtain paid owed b where acc: "acc = (paid, owed, b)" by (cases acc)
  show ?thesis
    using owes_loop_with_fst [of add sub v e "splitBetween e" owed b]
          owes_loop_with_fst [of add sub v e "splitBetween e" owed
                                 "paid_loop_with add v (splitBetween e) b"]
    by (simp add: acc expense_step_with_def split: prod.splits)
qed

lemma step_with_balances:
  "snd (snd (expense_step_with add sub v e acc)) =
     foldl (apply_posting add sub) (snd (snd acc)) (entry_postings v e)"
proof -
  obtain paid owed b where acc: "acc = (paid, owed, b)" by (cases acc)
  show ?thesis
    using owes_loop_with_snd [of add sub v e "splitBetween e" owed b]
          owes_loop_with_snd [of add sub v e "splitBetween e" owed
                                 "paid_loop_with add v (splitBetween e) b"]
    by (simp add: acc expense_step_with_def entry_postings_def
          paid_loop_with_postings [of add v _ _ sub] split: prod.splits)
qed

lemma loop_with_paid:
  "fst (expenses_loop_with add sub v es acc) =
     foldl add (fst acc) (map amount (filter (\<lambda>e. paidBy e = v) es))"
  by (induction es arbitrary: acc) (simp_all add: step_with_paid)

lemma loop_with_owed:
  "fst (snd (expenses_loop_with add sub v es acc)) =
     foldl add (fst (snd acc))
       (concat (map (\<lambda>e. map split_amount
                            (filter (\<lambda>s. split_user s = v \<and> \<not> isPaid s) (splitBetween e)))
                    (filter (\<lambda>e. paidBy e \<noteq> v) es)))"
  by (induction es arbitrary: acc) (simp_all add: step_with_owed)

lemma loop_with_balances:
  "snd (snd (expenses_loop_with add sub v es acc)) =
     foldl (apply_posting add sub) (snd (snd acc)) (concat (map (entry_postings v) es))"
  by (induction es arbitrary: acc) (simp_all add: step_with_balances)

lemma apply_posting_at:
  "apply_posting add sub b p k =
     (if fst p = k then Some (post add sub (get0 b k) (snd p)) else b k)"
  by (auto simp: apply_posting_def)

lemma get0_apply_posting:
  "get0 (apply_posting add sub b p) k =
     (if fst p = k then post add sub (get0 b k) (snd p) else get0 b k)"
  by (simp add: get0_def apply_posting_at)

lemma postings_at_key:
  "foldl (apply_posting add sub) b ps k =
     (case map snd (filter (\<lambda>p. fst p = k) ps) of
        [] \<Rightarrow> b k
      | q # qs \<Rightarrow> Some (foldl (post add sub) (get0 b k) (q # qs)))"
proof (induction ps arbitrary: b)
  case Nil
  show ?case by simp
next
  case (Cons p ps)
  have "foldl (apply_posting add sub) b (p # ps) k =
        foldl (apply_posting add sub) (apply_posting add sub b p) ps k"
    by simp
  also have "\<dots> =
     (case map snd (filter (\<lambda>p. fst p = k) ps) of
        [] \<Rightarrow> apply_posting add sub b p k
      | q # qs \<Rightarrow> Some (foldl (post add sub) (get0 (apply_posting add sub b p) k) (q # qs)))"
    by (rule Cons.IH)
  also have "\<dots> =
     (case map snd (filter (\<lambda>p. fst p = k) (p # ps)) of
        [] \<Rightarrow> b k
      | q # qs \<Rightarrow> Some (foldl (post add sub) (get0 b k) (q # qs)))"
    by (simp add: apply_posting_at get0_apply_posting split: list.splits)
  finally show ?case .
qed

text \<open>With exact addition and subtraction the loops are those of the first section.\<close>

lemma bump_plus: "bump (+) b k x = credit b k x"
  by (simp add: bump_def credit_def)

lemma bump_minus: "bump (-) b k x = credit b k (- x)"
  by (simp add: bump_def credit_def Let_def)

lemma paid_loop_with_exact: "paid_loop_with (+) v ss b = paid_loop v ss b"
  by (induction ss arbitrary: b) (simp_all add: bump_plus)

lemma owes_loop_with_exact:
  "owes_loop_with (+) (-) v e ss (owed, b) = owes_loop v e ss (owed, b)"
  by (induction ss arbitrary: owed b) (simp_all add: bump_minus)

lemma expense_step_with_exact: "expense_step_with (+) (-) v e acc = expense_step v e acc"
  by (cases acc)
     (simp add: expense_step_with_def expense_step_def paid_loop_with_exact owes_loop_with_exact)

lemma expenses_loop_with_exact: "expenses_loop_with (+) (-) v es acc = expenses_loop v es acc"
  by (induction es arbitrary: acc) (simp_all add: expense_step_with_exact)

lemma summarize_with_exact: "summarize_with (+) (-) viewer es = summarize viewer es"
  by (simp add: summarize_with_def summarize_def expenses_loop_with_exact)

text \<open>
  C1. For every viewer and every list of entries, whatever the rounding of the two
  operations, the summary the handler computes is the reference summary: totalPaid is the
  sum of the amounts of the entries the viewer paid, totalOwed the sum of the viewer's
  unsettled shares in entries paid by others, both accumulated in the order of the entries;
  netBalance is totalPaid minus totalOwed; and balances holds, for each counterparty that
  an unsettled share links to the viewer, the result of adding the shares owed to the
  viewer and subtracting the shares the viewer owes, in the order of the entries.
\<close>

theorem summary_in_order:
  "summarize_with add sub viewer es =
     \<lparr>totalPaid = ref_totalPaid add viewer es,
      totalOwed = ref_totalOwed add viewer es,
      netBalance = sub (ref_totalPaid add viewer es) (ref_totalOwed add viewer es),
      balances = ref_balances add sub viewer es\<rparr>"
proof -
  obtain paid owed b where
    loop: "expenses_loop_with add sub viewer es (0, 0, Map.empty) = (paid, owed, b)"
    by (cases "expenses_loop_with add sub viewer es (0, 0, Map.empty)")
  have p: "paid = ref_totalPaid add viewer es"
    using loop_with_paid [of add sub viewer es "(0, 0, Map.empty)"]
    by (simp add: loop ref_totalPaid_def)
  have ow: "owed = ref_totalOwed add viewer es"
    using loop_with_owed [of add sub viewer es "(0, 0, Map.empty)"]
    by (simp add: loop ref_totalOwed_def)
  have "b = foldl (apply_posting add sub) Map.empty (concat (map (entry_postings viewer) es))"
    using loop_with_balances [of add sub viewer es "(0, 0, Map.empty)"] by (simp add: loop)
  then have "b k = ref_balances add sub viewer es k" for k
    by (simp add: postings_at_key ref_balances_def postings_of_def get0_def split: list.splits)
  then have bal: "b = ref_balances add sub viewer es" by (rule ext)
  show ?thesis by (simp add: summarize_with_def loop p ow bal)
qed

theorem summary_in_order_witness:
  "summarize_with (+) (-) 2 [ex_entry, ex_event_entry] =
     \<lparr>totalPaid = 30, totalOwed = 50, netBalance = - 20,
      balances = ref_balances (+) (-) 2 [ex_entry, ex_event_entry]\<rparr> \<and>
   ref_balances (+) (-) 2 [ex_entry, ex_event_entry] 1 = Some (- 20) \<and>
   ref_balances (+) (-) 2 [ex_entry, ex_event_entry] 3 = None \<and>
   balances (summarize_with (\<lambda>a b. min 60 (a + b)) (-) 1 [ex_entry, ex_dup]) 2 = Some 60 \<and>
   totalPaid (summarize_with (\<lambda>a b. min 60 (a + b)) (-) 1 [ex_entry, ex_dup]) = 60"
  using summary_in_order [of "(+)" "(-)" 2 "[ex_entry, ex_event_entry]"]
    summary_in_order [of "\<lambda>a b. min 60 (a + b)" "(-)" 1 "[ex_entry, ex_dup]"]
  by (simp add: ref_totalPaid_def ref_totalOwed_def ref_balances_def postings_of_def
        entry_postings_def ex_entry_def ex_event_entry_def ex_dup_def)

section \<open>Settled shares\<close>






section \<open>Symmetry of balances\<close>

text \<open>
  C8, as stated: user 1 paid an entry with an unsettled share of 50 for user 2, yet the two
  balances are 80 and -80 when the entry holds a second share of user 2, and 20 and -20 when
  user 2 paid another entry in which user 1 owes 30.
\<close>

theorem symmetry_counterexample:
  "paidBy ex_dup = 1 \<and>
   \<lparr>split_user = 2, split_amount = 50, isPaid = False\<rparr> \<in> set (splitBetween ex_dup) \<and>
   balances (summarize 1 [ex_dup]) 2 = Some 80 \<and>
   balances (summarize 2 [ex_dup]) 1 = Some (- 80) \<and>
   paidBy ex_entry = 1 \<and>
   \<lparr>split_user = 2, split_amount = 50, isPaid = False\<rparr> \<in> set (splitBetween ex_entry) \<and>
   balances (summarize 1 [ex_entry, ex_event_entry]) 2 = Some 20 \<and>
   balances (summarize 2 [ex_entry, ex_event_entry]) 1 = Some (- 20)"
  by (simp add: summary_eval ex_dup_def ex_entry_def ex_event_entry_def)

text \<open>
  C8, amended. For distinct users A and B and any list of entries: if A paid an entry with
  an unsettled share for B of amount X, that share is the only unsettled share of B in the
  entries A paid, and A has no unsettled share in the entries B paid, then the summary for A
  has balances[B] = X and the summary for B has balances[A] = -X.
\<close>

theorem balance_symmetry:
  assumes "A \<noteq> B"
    and "e \<in> set es" and "paidBy e = A"
    and "s \<in> set (splitBetween e)" and "split_user s = B" and "\<not> isPaid s"
    and "split_amount s = X"
    and "unsettled_shares A B es = [s]"
    and "unsettled_shares B A es = []"
  shows "balances (summarize A es) B = Some X \<and> balances (summarize B es) A = Some (- X)"
  using assms by (simp add: summarize_eq spec_summary_def spec_balances_def)

theorem balance_symmetry_witness:
  "balances (summarize 1 [ex_entry, ex_settled]) 2 = Some 50 \<and>
   balances (summarize 2 [ex_entry, ex_settled]) 1 = Some (- 50)"
  using balance_symmetry [of 1 2 ex_entry "[ex_entry, ex_settled]"
      "\<lparr>split_user = 2, split_amount = 50, isPaid = False\<rparr>" 50]
  by (simp add: unsettled_shares_def ex_entry_def ex_settled_def)

section \<open>The summary without a scope\<close>

text \<open>
  C10. Called with neither a communityId nor an eventId, the summary handler does not fail:
  it answers with the viewer's summary over every expense of the collection, whatever its
  community or event.
\<close>

theorem summary_without_scope:
  "get_summary st None None viewer = Inr (summarize viewer (expenseColl st))"
  by (simp add: get_summary_def find_expenses_def matches_def)

theorem summary_without_scope_witness:
  "get_summary ex_db None None 1 =
     Inr \<lparr>totalPaid = 100, totalOwed = 30, netBalance = 70,
          balances = balances (summarize 1 [ex_entry, ex_event_entry])\<rparr> \<and>
   balances (summarize 1 [ex_entry, ex_event_entry]) 2 = Some 20 \<and>
   balances (summarize 1 [ex_entry, ex_event_entry]) 3 = Some 50 \<and>
   community ex_entry \<noteq> community ex_event_entry"
  using summary_without_scope [of ex_db 1]
  by (simp add: ex_db_def summary_eval ex_entry_def ex_event_entry_def)

section \<open>Listing by scope\<close>

lemma find_expenses_event:
  "find_expenses st \<lparr>q_event = Some ev, q_community = None\<rparr> =
     filter (\<lambda>e. event e = Some ev) (expenseColl st)"
  unfolding find_expenses_def by (rule filter_cong) (simp_all add: matches_def)

lemma find_expenses_community:
  "find_expenses st \<lparr>q_event = None, q_community = Some c\<rparr> =
     filter (\<lambda>e. community e = c) (expenseColl st)"
  unfolding find_expenses_def by (rule filter_cong) (simp_all add: matches_def)

lemma newest_first_sort:
  "sorted_wrt (\<lambda>a b. createdAt b \<le> createdAt a) (sort_key (\<lambda>e. - createdAt e) xs)"
proof -
  have "sorted (map (\<lambda>e. - createdAt e) (sort_key (\<lambda>e. - createdAt e) xs))"
    by (rule sorted_sort_key)
  then show ?thesis by (simp add: sorted_map)
qed

text \<open>
  C6. The listing fails with InvalidScope when neither a communityId nor an eventId is
  given. Given an eventId (with or without a communityId) it returns exactly the expenses of
  that event, and given only a communityId exactly the expenses of that community, each
  matching expense once and none other, ordered newest first by creation time.
\<close>

theorem list_by_scope:
  "get_expenses st None None = Inl InvalidScope \<and>
   (\<exists>xs. get_expenses st communityId (Some ev) = Inr xs \<and>
         mset xs = mset (filter (\<lambda>e. event e = Some ev) (expenseColl st)) \<and>
         sorted_wrt (\<lambda>a b. createdAt b \<le> createdAt a) xs) \<and>
   (\<exists>xs. get_expenses st (Some c) None = Inr xs \<and>
         mset xs = mset (filter (\<lambda>e. community e = c) (expenseColl st)) \<and>
         sorted_wrt (\<lambda>a b. createdAt b \<le> createdAt a) xs)"
  by (simp add: get_expenses_def find_expenses_event find_expenses_community newest_first_sort)

theorem list_by_scope_witness:
  "get_expenses ex_db None None = Inl InvalidScope \<and>
   get_expenses ex_db (Some 7) (Some 20) = Inr [ex_event_entry] \<and>
   get_expenses ex_db (Some 7) None = Inr [ex_entry] \<and>
   get_expenses (ex_db\<lparr>expenseColl := [ex_entry, ex_settled, ex_dup]\<rparr>) (Some 7) None
     = Inr [ex_dup, ex_settled, ex_entry]"
  using list_by_scope [of ex_db "Some 7" 20 7]
  by (simp add: get_expenses_def find_expenses_def matches_def ex_db_def ex_entry_def
        ex_event_entry_def ex_settled_def ex_dup_def)

section \<open>Marking a share as paid\<close>

lemma findById_id: "findById st i = Some e \<Longrightarrow> expense_id e = i"
  by (auto simp: findById_def find_Some_iff)

lemma findById_mem: "findById st i = Some e \<Longrightarrow> e \<in> set (expenseColl st)"
  by (auto simp: findById_def find_Some_iff)

lemma find_replace:
  "find (\<lambda>x. expense_id x = i) xs = Some e \<Longrightarrow> expense_id e' = i \<Longrightarrow>
   find (\<lambda>x. expense_id x = i) (map (\<lambda>x. if expense_id x = i then e' else x) xs) = Some e'"
  by (induction xs) (simp_all split: if_splits)

lemma findById_save:
  "findById st i = Some e \<Longrightarrow> expense_id e' = i \<Longrightarrow> findById (save_expense st e') i = Some e'"
  by (simp add: findById_def save_expense_def find_replace)

lemma save_expense_twice: "save_expense (save_expense st e) e = save_expense st e"
  by (simp add: save_expense_def comp_def)

lemma mark_paid_twice: "mark_paid u (mark_paid u ss) = mark_paid u ss"
  by (induction ss) simp_all

lemma mark_paid_users: "map split_user (mark_paid u ss) = map split_user ss"
  by (induction ss) simp_all

lemma mark_paid_user_set: "split_user ` set (mark_paid u ss) = split_user ` set ss"
  using mark_paid_users [of u ss] by (metis set_map)

lemma find_user_Some:
  "u \<in> split_user ` set ss \<Longrightarrow> \<exists>s. find (\<lambda>s. split_user s = u) ss = Some s \<and> split_user s = u"
  by (induction ss) auto

lemma find_user_None:
  "u \<notin> split_user ` set ss \<Longrightarrow> find (\<lambda>s. split_user s = u) ss = None"
  by (induction ss) auto

lemma mark_paid_index:
  "u \<in> split_user ` set ss \<Longrightarrow>
   \<exists>k < length ss. split_user (ss ! k) = u \<and> (\<forall>j < k. split_user (ss ! j) \<noteq> u) \<and>
        mark_paid u ss = ss[k := (ss ! k)\<lparr>isPaid := True\<rparr>]"
proof (induction ss)
  case Nil
  then show ?case by simp
next
  case (Cons s ss)
  show ?case
  proof (cases "split_user s = u")
    case True
    then have "0 < length (s # ss) \<and> split_user ((s # ss) ! 0) = u \<and>
        (\<forall>j < 0. split_user ((s # ss) ! j) \<noteq> u) \<and>
        mark_paid u (s # ss) = (s # ss)[0 := ((s # ss) ! 0)\<lparr>isPaid := True\<rparr>]"
      by simp
    then show ?thesis by blast
  next
    case False
    with Cons.prems have "u \<in> split_user ` set ss" by auto
    from Cons.IH [OF this] obtain k where k: "k < length ss" "split_user (ss ! k) = u"
      "\<forall>j < k. split_user (ss ! j) \<noteq> u" "mark_paid u ss = ss[k := (ss ! k)\<lparr>isPaid := True\<rparr>]"
      by blast
    have "\<forall>j < Suc k. split_user ((s # ss) ! j) \<noteq> u"
      using False k(3) by (auto simp: less_Suc_eq_0_disj)
    with False k have "Suc k < length (s # ss) \<and> split_user ((s # ss) ! Suc k) = u \<and>
        (\<forall>j < Suc k. split_user ((s # ss) ! j) \<noteq> u) \<and>
        mark_paid u (s # ss) = (s # ss)[Suc k := ((s # ss) ! Suc k)\<lparr>isPaid := True\<rparr>]"
      by simp
    then show ?thesis by blast
  qed
qed

lemma put_pay_success:
  assumes "findById st i = Some e" and "d \<in> split_user ` set (splitBetween e)"
    and "r = paidBy e \<or> r = d"
  shows "put_pay st i d r = Inr (save_expense st (e\<lparr>splitBetween := mark_paid d (splitBetween e)\<rparr>))"
proof -
  from find_user_Some [OF assms(2)] obtain s where
    s: "find (\<lambda>s. split_user s = d) (splitBetween e) = Some s" "split_user s = d" by blast
  show ?thesis using assms(1,3) s by (auto simp: put_pay_def)
qed

lemmas sample_defs = ex_db_def ex_entry_def ex_event_entry_def ex_settled_def ex_dup_def

text \<open>
  C3. Marking is idempotent: whenever the entry exists, the debtor has a share in it and the
  requester is the payer or that debtor, the call succeeds, and the same call on the
  resulting state succeeds again and leaves that state as it is.
\<close>

theorem mark_settled_idempotent:
  assumes "findById st i = Some e" and "d \<in> split_user ` set (splitBetween e)"
    and "r = paidBy e \<or> r = d"
  shows "\<exists>st1. put_pay st i d r = Inr st1 \<and> put_pay st1 i d r = Inr st1"
proof -
  let ?e1 = "e\<lparr>splitBetween := mark_paid d (splitBetween e)\<rparr>"
  let ?st1 = "save_expense st ?e1"
  have id1: "expense_id ?e1 = i" using findById_id [OF assms(1)] by simp
  have first: "put_pay st i d r = Inr ?st1" by (rule put_pay_success [OF assms])
  have f1: "findById ?st1 i = Some ?e1" by (rule findById_save [OF assms(1) id1])
  have d1: "d \<in> split_user ` set (splitBetween ?e1)"
    using assms(2) by (simp add: mark_paid_user_set)
  have r1: "r = paidBy ?e1 \<or> r = d" using assms(3) by simp
  have "put_pay ?st1 i d r =
      Inr (save_expense ?st1 (?e1\<lparr>splitBetween := mark_paid d (splitBetween ?e1)\<rparr>))"
    by (rule put_pay_success [OF f1 d1 r1])
  also have "?e1\<lparr>splitBetween := mark_paid d (splitBetween ?e1)\<rparr> = ?e1"
    by (simp add: mark_paid_twice)
  also have "save_expense ?st1 ?e1 = ?st1" by (rule save_expense_twice)
  finally have "put_pay ?st1 i d r = Inr ?st1" .
  with first show ?thesis by blast
qed

theorem mark_settled_idempotent_witness:
  "findById ex_db 10 = Some ex_entry \<and> 2 \<in> split_user ` set (splitBetween ex_entry) \<and>
   (\<exists>st1. put_pay ex_db 10 2 2 = Inr st1 \<and> put_pay st1 10 2 2 = Inr st1)"
proof -
  have h1: "findById ex_db 10 = Some ex_entry" by (simp add: findById_def sample_defs)
  have h2: "2 \<in> split_user ` set (splitBetween ex_entry)" by (simp add: ex_entry_def)
  have h3: "(2::nat) = paidBy ex_entry \<or> (2::nat) = 2" by simp
  show ?thesis using h1 h2 mark_settled_idempotent [OF h1 h2 h3] by simp
qed

text \<open>
  C4. Marking fails with NotFound when no entry has the id or the entry has no share of the
  debtor; otherwise it fails with PermissionDenied unless the requester is the entry's payer
  or that debtor; otherwise it succeeds and the stored entry differs from the old one only
  in the first share of that debtor, whose flag is now true.
\<close>

theorem mark_settled_cases:
  "(findById st i = None \<longrightarrow> put_pay st i d r = Inl NotFound) \<and>
   (\<forall>e. findById st i = Some e \<and> d \<notin> split_user ` set (splitBetween e) \<longrightarrow>
        put_pay st i d r = Inl NotFound) \<and>
   (\<forall>e. findById st i = Some e \<and> d \<in> split_user ` set (splitBetween e) \<and>
        r \<noteq> paidBy e \<and> r \<noteq> d \<longrightarrow>
        put_pay st i d r = Inl PermissionDenied) \<and>
   (\<forall>e. findById st i = Some e \<and> d \<in> split_user ` set (splitBetween e) \<and>
        (r = paidBy e \<or> r = d) \<longrightarrow>
        (\<exists>k < length (splitBetween e).
            split_user (splitBetween e ! k) = d \<and>
            (\<forall>j < k. split_user (splitBetween e ! j) \<noteq> d) \<and>
            put_pay st i d r =
              Inr (st\<lparr>expenseColl :=
                        map (\<lambda>x. if expense_id x = i
                                  then e\<lparr>splitBetween :=
                                           (splitBetween e)[k := (splitBetween e ! k)\<lparr>isPaid := True\<rparr>]\<rparr>
                                  else x)
                            (expenseColl st)\<rparr>)))"
proof (intro conjI allI impI)
  assume "findById st i = None"
  then show "put_pay st i d r = Inl NotFound" by (simp add: put_pay_def)
next
  fix e assume "findById st i = Some e \<and> d \<notin> split_user ` set (splitBetween e)"
  then show "put_pay st i d r = Inl NotFound"
    by (simp add: put_pay_def find_user_None)
next
  fix e assume a: "findById st i = Some e \<and> d \<in> split_user ` set (splitBetween e) \<and>
        r \<noteq> paidBy e \<and> r \<noteq> d"
  then obtain s where "find (\<lambda>s. split_user s = d) (splitBetween e) = Some s" "split_user s = d"
    using find_user_Some by blast
  with a show "put_pay st i d r = Inl PermissionDenied"
    by (auto simp: put_pay_def)
next
  fix e assume a: "findById st i = Some e \<and> d \<in> split_user ` set (splitBetween e) \<and>
        (r = paidBy e \<or> r = d)"
  then have f: "findById st i = Some e" and m: "d \<in> split_user ` set (splitBetween e)"
    and p: "r = paidBy e \<or> r = d" by simp_all
  from mark_paid_index [OF m] obtain k where k: "k < length (splitBetween e)"
      "split_user (splitBetween e ! k) = d" "\<forall>j < k. split_user (splitBetween e ! j) \<noteq> d"
      "mark_paid d (splitBetween e) = (splitBetween e)[k := (splitBetween e ! k)\<lparr>isPaid := True\<rparr>]"
    by blast
  have "put_pay st i d r =
      Inr (st\<lparr>expenseColl :=
                map (\<lambda>x. if expense_id x = i
                          then e\<lparr>splitBetween :=
                                   (splitBetween e)[k := (splitBetween e ! k)\<lparr>isPaid := True\<rparr>]\<rparr>
                          else x)
                    (expenseColl st)\<rparr>)"
    using put_pay_success [OF f m p] k(4) findById_id [OF f] by (simp add: save_expense_def)
  with k(1,2,3) show "\<exists>k < length (splitBetween e).
            split_user (splitBetween e ! k) = d \<and>
            (\<forall>j < k. split_user (splitBetween e ! j) \<noteq> d) \<and>
            put_pay st i d r =
              Inr (st\<lparr>expenseColl :=
                        map (\<lambda>x. if expense_id x = i
                                  then e\<lparr>splitBetween :=
                                           (splitBetween e)[k := (splitBetween e ! k)\<lparr>isPaid := True\<rparr>]\<rparr>
                                  else x)
                            (expenseColl st)\<rparr>)"
    by blast
qed

theorem mark_settled_cases_witness:
  "put_pay ex_db 99 2 2 = Inl NotFound \<and>
   put_pay ex_db 10 5 1 = Inl NotFound \<and>
   put_pay ex_db 10 2 3 = Inl PermissionDenied \<and>
   put_pay ex_db 10 3 1 =
     Inr (ex_db\<lparr>expenseColl :=
            [ex_entry\<lparr>splitBetween := [\<lparr>split_user = 2, split_amount = 50, isPaid = False\<rparr>,
                                        \<lparr>split_user = 3, split_amount = 50, isPaid = True\<rparr>]\<rparr>,
             ex_event_entry]\<rparr>)"
  using mark_settled_cases [of ex_db 99 2 2] mark_settled_cases [of ex_db 10 5 1]
    mark_settled_cases [of ex_db 10 2 3] mark_settled_cases [of ex_db 10 3 1]
  by (simp add: put_pay_def findById_def save_expense_def sample_defs)

section \<open>Deleting an expense\<close>

lemma find_filter_None: "find (\<lambda>x. expense_id x = i) (filter (\<lambda>x. expense_id x \<noteq> i) xs) = None"
  by (induction xs) simp_all

text \<open>
  C5. Deleting fails with NotFound when no entry has the id, and with PermissionDenied for
  every requester other than the entry's payer, a debtor of one of its shares included. For
  the payer it succeeds: first the id is pulled from the expense list of the entry's event,
  if it has one, which leaves the expenses untouched; then the entry is removed from the
  expenses, after which no entry has the id.
\<close>

theorem delete_cases:
  "(findById st i = None \<longrightarrow> delete_expense st i r = Inl NotFound) \<and>
   (\<forall>e. findById st i = Some e \<and> r \<noteq> paidBy e \<longrightarrow>
        delete_expense st i r = Inl PermissionDenied) \<and>
   (\<forall>e. findById st i = Some e \<and> r = paidBy e \<longrightarrow>
        (\<exists>st1 st2.
            expenseColl st1 = expenseColl st \<and>
            communityColl st1 = communityColl st \<and>
            eventColl st1 =
              map (\<lambda>d. if event e = Some (event_id d)
                        then d\<lparr>expenses := removeAll i (expenses d)\<rparr> else d) (eventColl st) \<and>
            st2 = st1\<lparr>expenseColl := filter (\<lambda>x. expense_id x \<noteq> i) (expenseColl st1)\<rparr> \<and>
            findById st2 i = None \<and>
            delete_expense st i r = Inr st2))"
proof (intro conjI allI impI)
  assume "findById st i = None"
  then show "delete_expense st i r = Inl NotFound" by (simp add: delete_expense_def)
next
  fix e assume "findById st i = Some e \<and> r \<noteq> paidBy e"
  then show "delete_expense st i r = Inl PermissionDenied"
    by (auto simp: delete_expense_def)
next
  fix e assume a: "findById st i = Some e \<and> r = paidBy e"
  then have f: "findById st i = Some e" and p: "r = paidBy e" by simp_all
  have id: "expense_id e = i" by (rule findById_id [OF f])
  define st1 where "st1 = (case event e of Some ev \<Rightarrow> pull_expense st ev (expense_id e) | None \<Rightarrow> st)"
  define st2 where "st2 = st1\<lparr>expenseColl := filter (\<lambda>x. expense_id x \<noteq> i) (expenseColl st1)\<rparr>"
  have 1: "expenseColl st1 = expenseColl st" "communityColl st1 = communityColl st"
    by (simp_all add: st1_def pull_expense_def split: option.splits)
  have 2: "eventColl st1 =
              map (\<lambda>d. if event e = Some (event_id d)
                        then d\<lparr>expenses := removeAll i (expenses d)\<rparr> else d) (eventColl st)"
    by (cases "event e") (auto simp: st1_def pull_expense_def id map_idI)
  have 3: "findById st2 i = None"
    by (simp add: st2_def findById_def find_filter_None)
  have 4: "delete_expense st i r = Inr st2"
    using f p by (simp add: delete_expense_def delete_one_def st2_def st1_def id Let_def)
  from 1 2 3 4 st2_def
  show "\<exists>st1 st2.
            expenseColl st1 = expenseColl st \<and>
            communityColl st1 = communityColl st \<and>
            eventColl st1 =
              map (\<lambda>d. if event e = Some (event_id d)
                        then d\<lparr>expenses := removeAll i (expenses d)\<rparr> else d) (eventColl st) \<and>
            st2 = st1\<lparr>expenseColl := filter (\<lambda>x. expense_id x \<noteq> i) (expenseColl st1)\<rparr> \<and>
            findById st2 i = None \<and>
            delete_expense st i r = Inr st2"
    by blast
qed

theorem delete_cases_witness:
  "delete_expense ex_db 99 2 = Inl NotFound \<and>
   1 \<in> split_user ` set (splitBetween ex_event_entry) \<and>
   delete_expense ex_db 13 1 = Inl PermissionDenied \<and>
   delete_expense ex_db 13 2 =
     Inr (ex_db\<lparr>expenseColl := [ex_entry],
                eventColl := [\<lparr>event_id = 20, event_community = 8, expenses = []\<rparr>]\<rparr>)"
  using delete_cases [of ex_db 99 2] delete_cases [of ex_db 13 1] delete_cases [of ex_db 13 2]
  by (simp add: delete_expense_def findById_def delete_one_def pull_expense_def sample_defs)

section \<open>Creating an expense\<close>

lemmas create_eval =
  post_create_def validation_errors_def isCommunityMember_def push_expense_def trim_def
  is_space_def ascii_def allowed_categories_def Let_def

lemma isCommunityMember_Inr:
  "isCommunityMember st c u = Inr com \<Longrightarrow> c = Some (community_id com)"
  by (auto simp: isCommunityMember_def find_Some_iff split: option.splits if_splits)

lemma isCommunityMember_not_validation:
  "isCommunityMember st c u \<noteq> Inl ValidationError"
  by (simp add: isCommunityMember_def split: option.splits)

lemma validation_errors_empty:
  "validation_errors r = [] \<longleftrightarrow>
     trim (req_title r) \<noteq> [] \<and> (\<exists>a. req_amount r = Some a \<and> 0 \<le> a) \<and>
     req_category r \<in> set allowed_categories \<and> req_communityId r \<noteq> None"
  by (auto simp: validation_errors_def split: option.splits)

lemma post_create_Inr:
  assumes "post_create st r u n t = Inr (st', e)"
  shows "validation_errors r = [] \<and>
         (\<exists>com. isCommunityMember st (req_communityId r) u = Inr com \<and> community e = community_id com) \<and>
         req_amount r = Some (amount e) \<and> category e = req_category r \<and>
         splitBetween e = req_splitBetween r \<and> paidBy e = u \<and> expense_id e = n \<and>
         expenseColl st' = expenseColl st @ [e]"
  using assms
  by (auto simp: post_create_def Let_def push_expense_def split: if_splits sum.splits option.splits)

text \<open>
  C7, as stated: an amount must be strictly greater than 0. A request with amount 0, an
  allowed category and the community of a member passes validation, and the entry with
  amount 0 is stored.
\<close>

theorem create_zero_counterexample:
  "\<not> isl (post_create ex_db ex_req_zero 1 14 3000) \<and>
   amount (snd (projr (post_create ex_db ex_req_zero 1 14 3000))) = 0 \<and>
   snd (projr (post_create ex_db ex_req_zero 1 14 3000))
     \<in> set (expenseColl (fst (projr (post_create ex_db ex_req_zero 1 14 3000))))"
  by (simp add: create_eval ex_req_zero_def ex_db_def)

text \<open>
  C7, amended. Creation fails with ValidationError exactly when the title is blank (empty
  once the whitespace that \<open>\s\<close> matches is trimmed from both ends), the amount is not a
  number or is below 0, the category is outside the allowed set or no community id is
  given; an amount of 0 is accepted. Every entry that creation stores has an
  amount of at least 0, an allowed category and the community of the request.
\<close>

theorem create_validation:
  "(post_create st r u n t = Inl ValidationError \<longleftrightarrow>
       trim (req_title r) = [] \<or> req_amount r = None \<or> (\<exists>a. req_amount r = Some a \<and> a < 0) \<or>
       req_category r \<notin> set allowed_categories \<or> req_communityId r = None) \<and>
   (\<forall>st' e. post_create st r u n t = Inr (st', e) \<longrightarrow>
       0 \<le> amount e \<and> category e \<in> set allowed_categories \<and>
       req_communityId r = Some (community e) \<and> expenseColl st' = expenseColl st @ [e])"
proof (rule conjI)
  show "post_create st r u n t = Inl ValidationError \<longleftrightarrow>
       trim (req_title r) = [] \<or> req_amount r = None \<or> (\<exists>a. req_amount r = Some a \<and> a < 0) \<or>
       req_category r \<notin> set allowed_categories \<or> req_communityId r = None"
  proof (cases "validation_errors r = []")
    case True
    then have "post_create st r u n t \<noteq> Inl ValidationError"
      using isCommunityMember_not_validation [of st "req_communityId r" u]
      by (auto simp: post_create_def Let_def validation_errors_empty split: sum.splits)
    with True show ?thesis by (auto simp: validation_errors_empty)
  next
    case False
    then have "post_create st r u n t = Inl ValidationError" by (simp add: post_create_def)
    with False show ?thesis
      by (simp add: validation_errors_empty) (metis not_le option.exhaust)
  qed
next
  show "\<forall>st' e. post_create st r u n t = Inr (st', e) \<longrightarrow>
       0 \<le> amount e \<and> category e \<in> set allowed_categories \<and>
       req_communityId r = Some (community e) \<and> expenseColl st' = expenseColl st @ [e]"
  proof (intro allI impI)
  fix st' e assume a: "post_create st r u n t = Inr (st', e)"
  from post_create_Inr [OF a] obtain com where
    v: "validation_errors r = []" and c: "isCommunityMember st (req_communityId r) u = Inr com"
    and ce: "community e = community_id com" and am: "req_amount r = Some (amount e)"
    and cat: "category e = req_category r" and coll: "expenseColl st' = expenseColl st @ [e]"
    by blast
  from v am cat have "0 \<le> amount e" "category e \<in> set allowed_categories"
    by (auto simp: validation_errors_empty)
  moreover have "req_communityId r = Some (community e)"
    using isCommunityMember_Inr [OF c] ce by simp
  ultimately show "0 \<le> amount e \<and> category e \<in> set allowed_categories \<and>
       req_communityId r = Some (community e) \<and> expenseColl st' = expenseColl st @ [e]"
    using coll by simp
  qed
qed

theorem create_validation_witness:
  "post_create ex_db (ex_req_zero\<lparr>req_title := [0x20, 0xA0, 0x3000]\<rparr>) 1 14 3000
     = Inl ValidationError \<and>
   post_create ex_db (ex_req_zero\<lparr>req_amount := Some (- 1)\<rparr>) 1 14 3000 = Inl ValidationError \<and>
   post_create ex_db (ex_req_zero\<lparr>req_category := ''rent''\<rparr>) 1 14 3000 = Inl ValidationError \<and>
   post_create ex_db (ex_req_zero\<lparr>req_communityId := None\<rparr>) 1 14 3000 = Inl ValidationError \<and>
   post_create ex_db (ex_req_zero\<lparr>req_amount := Some 5\<rparr>) 1 14 3000 \<noteq> Inl ValidationError \<and>
   amount (snd (projr (post_create ex_db (ex_req_zero\<lparr>req_amount := Some 5\<rparr>) 1 14 3000))) = 5"
  using create_validation [of ex_db "ex_req_zero\<lparr>req_title := [0x20, 0xA0, 0x3000]\<rparr>" 1 14 3000]
    create_validation [of ex_db "ex_req_zero\<lparr>req_amount := Some (- 1)\<rparr>" 1 14 3000]
    create_validation [of ex_db "ex_req_zero\<lparr>req_amount := Some 5\<rparr>" 1 14 3000]
  by (simp add: create_eval ex_req_zero_def ex_db_def)

section \<open>Debtors of an entry\<close>

lemma all_debtors_unique_iff:
  "all_debtors_unique st \<longleftrightarrow> (\<forall>e\<in>set (expenseColl st). debtors_unique e)"
  by (simp add: all_debtors_unique_def list_all_iff)

lemma put_pay_keeps_debtors:
  assumes "all_debtors_unique st" and "put_pay st i d r = Inr st'"
  shows "all_debtors_unique st'"
proof -
  from assms(2) obtain e where f: "findById st i = Some e"
    and st': "st' = save_expense st (e\<lparr>splitBetween := mark_paid d (splitBetween e)\<rparr>)"
    by (auto simp: put_pay_def split: option.splits if_splits)
  have "debtors_unique e" using assms(1) findById_mem [OF f] by (simp add: all_debtors_unique_iff)
  then have "debtors_unique (e\<lparr>splitBetween := mark_paid d (splitBetween e)\<rparr>)"
    by (simp add: debtors_unique_def mark_paid_users)
  with assms(1) show ?thesis
    by (auto simp: st' save_expense_def all_debtors_unique_iff)
qed

lemma delete_keeps_debtors:
  assumes "all_debtors_unique st" and "delete_expense st i r = Inr st'"
  shows "all_debtors_unique st'"
proof -
  have "set (expenseColl st') \<subseteq> set (expenseColl st)"
    using assms(2)
    by (auto simp: delete_expense_def Let_def delete_one_def pull_expense_def
             split: option.splits if_splits)
  with assms(1) show ?thesis by (auto simp: all_debtors_unique_iff)
qed

text \<open>
  C9, as stated: every entry reachable through creation names each debtor at most once. On a
  database where that holds, a request whose shares name user 2 twice is accepted and the
  stored entry names user 2 twice.
\<close>

theorem create_duplicate_counterexample:
  "all_debtors_unique ex_db \<and>
   \<not> isl (post_create ex_db ex_req_dup 1 14 3000) \<and>
   \<not> debtors_unique (snd (projr (post_create ex_db ex_req_dup 1 14 3000))) \<and>
   \<not> all_debtors_unique (fst (projr (post_create ex_db ex_req_dup 1 14 3000)))"
  by (simp add: create_eval ex_req_dup_def all_debtors_unique_def debtors_unique_def sample_defs)

text \<open>
  C9, amended. Nothing checks that a debtor appears once: creation stores the shares as
  submitted, so after it every stored entry names each debtor at most once exactly when the
  submitted shares do. Marking a share as paid and deleting an entry keep the property: if
  it holds of every stored entry before, it holds of every stored entry after.
\<close>

theorem debtors_unique_preserved:
  assumes "all_debtors_unique st"
  shows "(\<forall>st'. put_pay st i d r = Inr st' \<longrightarrow> all_debtors_unique st') \<and>
         (\<forall>st'. delete_expense st j q = Inr st' \<longrightarrow> all_debtors_unique st') \<and>
         (\<forall>st' e. post_create st req u n t = Inr (st', e) \<longrightarrow>
             splitBetween e = req_splitBetween req \<and>
             (all_debtors_unique st' \<longleftrightarrow> distinct (map split_user (req_splitBetween req))))"
proof (intro conjI allI impI)
  fix st' assume "put_pay st i d r = Inr st'"
  then show "all_debtors_unique st'" by (rule put_pay_keeps_debtors [OF assms])
next
  fix st' assume "delete_expense st j q = Inr st'"
  then show "all_debtors_unique st'" by (rule delete_keeps_debtors [OF assms])
next
  fix st' e assume a: "post_create st req u n t = Inr (st', e)"
  from post_create_Inr [OF a] show "splitBetween e = req_splitBetween req" by simp
next
  fix st' e assume a: "post_create st req u n t = Inr (st', e)"
  from post_create_Inr [OF a]
  have sp: "splitBetween e = req_splitBetween req" and coll: "expenseColl st' = expenseColl st @ [e]"
    by simp_all
  show "all_debtors_unique st' \<longleftrightarrow> distinct (map split_user (req_splitBetween req))"
    using assms by (auto simp: all_debtors_unique_iff coll debtors_unique_def sp)
qed

theorem debtors_unique_preserved_witness:
  "all_debtors_unique ex_db \<and>
   all_debtors_unique (projr (put_pay ex_db 10 2 1)) \<and> \<not> isl (put_pay ex_db 10 2 1) \<and>
   all_debtors_unique (projr (delete_expense ex_db 13 2)) \<and> \<not> isl (delete_expense ex_db 13 2) \<and>
   all_debtors_unique (fst (projr (post_create ex_db ex_req_zero 1 14 3000))) \<and>
   \<not> isl (post_create ex_db ex_req_zero 1 14 3000)"
proof -
  have h: "all_debtors_unique ex_db"
    by (simp add: all_debtors_unique_def debtors_unique_def sample_defs)
  have p: "put_pay ex_db 10 2 1 = Inr (projr (put_pay ex_db 10 2 1))"
    by (simp add: put_pay_def findById_def sample_defs)
  have d: "delete_expense ex_db 13 2 = Inr (projr (delete_expense ex_db 13 2))"
    by (simp add: delete_expense_def findById_def sample_defs)
  have c: "post_create ex_db ex_req_zero 1 14 3000 =
      Inr (fst (projr (post_create ex_db ex_req_zero 1 14 3000)),
           snd (projr (post_create ex_db ex_req_zero 1 14 3000)))"
    by (simp add: create_eval ex_req_zero_def ex_db_def)
  have z: "distinct (map split_user (req_splitBetween ex_req_zero))"
    by (simp add: ex_req_zero_def)
  from debtors_unique_preserved [OF h, of 10 2 1 13 2 ex_req_zero 1 14 3000] p d c z
  show ?thesis using h by (metis sum.disc(2))
qed

end
